theory Spec2Isabelle
  imports Complex_Main "HOL-Library.Sublist" "HOL-Library.AList"
begin

section \<open>Python values and the operations the two scripts apply to them\<close>

text \<open>
  Both scripts work on whatever \<^verbatim>\<open>response.json()\<close> returns, so the model carries the
  Python value of a parsed JSON document. A \<open>dict\<close> is the list of its items in insertion
  order (its keys are distinct, and \<open>map_of\<close> looks a key up); a \<open>float\<close> is its
  rational value, or one of the three non-finite values \<^verbatim>\<open>json.loads\<close> accepts.
\<close>

datatype pyfloat = Finite rat | NaN | PosInf | NegInf

datatype pyval =
    PNone
  | PBool bool
  | PInt int
  | PFloat pyfloat
  | PStr string
  | PList "pyval list"
  | PDict "(string \<times> pyval) list"

datatype pyexn = KeyError | TypeError | AttributeError | ValueError | RequestException

text \<open>\<^verbatim>\<open>bool(v)\<close>: what \<^verbatim>\<open>if v\<close> and \<^verbatim>\<open>not v\<close> test.\<close>

fun truthy :: "pyval \<Rightarrow> bool" where
  "truthy PNone = False"
| "truthy (PBool b) = b"
| "truthy (PInt n) = (n \<noteq> 0)"
| "truthy (PFloat f) = (f \<noteq> Finite 0)"
| "truthy (PStr s) = (s \<noteq> [])"
| "truthy (PList xs) = (xs \<noteq> [])"
| "truthy (PDict kvs) = (kvs \<noteq> [])"

text \<open>\<^verbatim>\<open>x.get(k, default)\<close>: only a dict has the method.\<close>

definition dict_get :: "(string \<times> pyval) list \<Rightarrow> string \<Rightarrow> pyval \<Rightarrow> pyval" where
  "dict_get kvs k dflt = (case map_of kvs k of None \<Rightarrow> dflt | Some v \<Rightarrow> v)"

fun py_get :: "pyval \<Rightarrow> string \<Rightarrow> pyval \<Rightarrow> pyexn + pyval" where
  "py_get (PDict kvs) k dflt = Inr (dict_get kvs k dflt)"
| "py_get _ k dflt = Inl AttributeError"

text \<open>\<^verbatim>\<open>x[k]\<close> with a string key \<open>k\<close>.\<close>

fun py_getitem :: "pyval \<Rightarrow> string \<Rightarrow> pyexn + pyval" where
  "py_getitem (PDict kvs) k = (case map_of kvs k of None \<Rightarrow> Inl KeyError | Some v \<Rightarrow> Inr v)"
| "py_getitem _ k = Inl TypeError"

text \<open>\<^verbatim>\<open>k in x\<close> with a string \<open>k\<close>: key of a dict, element of a list, substring of a string.\<close>

fun py_contains :: "string \<Rightarrow> pyval \<Rightarrow> pyexn + bool" where
  "py_contains k (PDict kvs) = Inr (map_of kvs k \<noteq> None)"
| "py_contains k (PList xs) = Inr (List.member xs (PStr k))"
| "py_contains k (PStr s) = Inr (sublist k s)"
| "py_contains k _ = Inl TypeError"

text \<open>The elements \<^verbatim>\<open>list.extend(x)\<close> appends: iterating a dict yields its keys, iterating
  a string its characters.\<close>

fun py_iter :: "pyval \<Rightarrow> pyexn + pyval list" where
  "py_iter (PList xs) = Inr xs"
| "py_iter (PDict kvs) = Inr (map (\<lambda>kv. PStr (fst kv)) kvs)"
| "py_iter (PStr s) = Inr (map (\<lambda>c. PStr [c]) s)"
| "py_iter _ = Inl TypeError"

text \<open>\<^verbatim>\<open>str(n)\<close> for an integer.\<close>

fun digits :: "nat \<Rightarrow> string" where
  "digits n =
     (if n < 10 then [''0123456789'' ! n] else digits (n div 10) @ [''0123456789'' ! (n mod 10)])"

declare digits.simps [simp del]

definition str_int :: "int \<Rightarrow> string" where
  "str_int i = (if i < 0 then CHR ''-'' # digits (nat (- i)) else digits (nat i))"

text \<open>
  What an f-string puts for \<^verbatim>\<open>{v}\<close>, that is \<^verbatim>\<open>str(v)\<close>. The text Python prints for a
  float, a list or a dict is not modelled: \<open>repr\<close> stands for it.
\<close>

fun py_str :: "(pyval \<Rightarrow> string) \<Rightarrow> pyval \<Rightarrow> string" where
  "py_str repr PNone = ''None''"
| "py_str repr (PBool b) = (if b then ''True'' else ''False'')"
| "py_str repr (PInt n) = str_int n"
| "py_str repr (PStr s) = s"
| "py_str repr v = repr v"

text \<open>
  \<^verbatim>\<open>f"{v:,}"\<close>: the thousands separator is defined for numbers only. \<open>None\<close>, a list and
  a dict raise TypeError (unsupported format string), a string raises ValueError.
\<close>

fun format_comma :: "pyval \<Rightarrow> pyexn option" where
  "format_comma (PInt n) = None"
| "format_comma (PBool b) = None"
| "format_comma (PFloat f) = None"
| "format_comma (PStr s) = Some ValueError"
| "format_comma _ = Some TypeError"

text \<open>\<^verbatim>\<open>s.split(sep)\<close> for a one-character separator.\<close>

fun split_on :: "char \<Rightarrow> string \<Rightarrow> string list" where
  "split_on sep [] = [[]]"
| "split_on sep (c # cs) =
     (if c = sep then [] # split_on sep cs
      else (case split_on sep cs of [] \<Rightarrow> [[c]] | p # ps \<Rightarrow> (c # p) # ps))"

section \<open>The registry as the scripts see it\<close>

text \<open>
  \<^verbatim>\<open>requests.get(url)\<close>, \<^verbatim>\<open>raise_for_status()\<close> and \<^verbatim>\<open>response.json()\<close> together either
  raise a \<^verbatim>\<open>RequestException\<close> (no connection, an error status, a body that is not JSON) or
  give the parsed body. Each run asks for every URL once, so the registry is a function
  of the URL. The effects a run leaves behind are its requests and its sleeps, in order.
\<close>

datatype response = Failed | Json pyval

datatype event = Request string | Sleep rat

definition base_url :: string where
  "base_url = ''https://registry.terraform.io/v2''"

section \<open>All-providers-download-since-beginning.py\<close>

definition page_url :: "nat \<Rightarrow> string" where
  "page_url page = base_url @ ''/providers?page[number]='' @ str_int (int page) @ ''&page[size]=50''"

text \<open>
  The \<^verbatim>\<open>while True\<close> loop of \<open>get_all_providers\<close>, with the loop variables \<open>page\<close> and
  \<open>providers\<close> as arguments. A RequestException is caught, and ends the loop; any other
  exception leaves the function. The loop need not end: \<open>None\<close> is a run that goes on
  for ever.
\<close>

partial_function (option) get_all_providers_loop ::
  "(string \<Rightarrow> response) \<Rightarrow> nat \<Rightarrow> pyval list \<Rightarrow> event list \<Rightarrow> ((pyexn + pyval list) \<times> event list) option"
where
  "get_all_providers_loop http page providers trace =
     (let url = page_url page; trace1 = trace @ [Request url] in
      case http url of
        Failed \<Rightarrow> Some (Inr providers, trace1)
      | Json data \<Rightarrow>
          (case py_get data ''data'' PNone of
             Inl e \<Rightarrow> Some (Inl e, trace1)
           | Inr d \<Rightarrow>
               if \<not> truthy d then Some (Inr providers, trace1)
               else (case py_getitem data ''data'' of
                       Inl e \<Rightarrow> Some (Inl e, trace1)
                     | Inr d' \<Rightarrow>
                         (case py_iter d' of
                            Inl e \<Rightarrow> Some (Inl e, trace1)
                          | Inr items \<Rightarrow>
                              get_all_providers_loop http (page + 1) (providers @ items)
                                (trace1 @ [Sleep (1 / 2)])))))"

definition get_all_providers ::
  "(string \<Rightarrow> response) \<Rightarrow> ((pyexn + pyval list) \<times> event list) option" where
  "get_all_providers http = get_all_providers_loop http 1 [] []"

text \<open>
  \<open>get_provider_downloads\<close> of the full crawl: the body of its \<^verbatim>\<open>try\<close>, then the function
  with its handler. The handler itself calls \<^verbatim>\<open>provider.get('id')\<close> to write the log line,
  which only a dict can answer.
\<close>

definition try_bind :: "pyexn + 'a \<Rightarrow> ('a \<Rightarrow> pyexn + 'b) \<Rightarrow> pyexn + 'b" where
  "try_bind r f = (case r of Inl e \<Rightarrow> Inl e | Inr v \<Rightarrow> f v)"

definition get_provider_downloads_try :: "(pyval \<Rightarrow> string) \<Rightarrow> pyval \<Rightarrow> pyexn + pyval" where
  "get_provider_downloads_try repr provider =
     try_bind (py_getitem provider ''id'') (\<lambda>provider_id.
     try_bind (py_getitem provider ''attributes'') (\<lambda>attributes.
     try_bind (py_get attributes ''namespace'' PNone) (\<lambda>namespace.
     try_bind (py_get attributes ''name'' PNone) (\<lambda>name.
     try_bind (py_get attributes ''downloads'' (PInt 0)) (\<lambda>downloads.
     try_bind (py_get attributes ''version'' PNone) (\<lambda>version.
     try_bind (py_get attributes ''published-at'' PNone) (\<lambda>published_at.
     try_bind (py_get attributes ''tier'' PNone) (\<lambda>tier.
     try_bind (py_get attributes ''source'' PNone) (\<lambda>source.
       Inr (PDict
         [(''id'', provider_id),
          (''namespace'', namespace),
          (''name'', name),
          (''full_name'', PStr (py_str repr namespace @ ''/'' @ py_str repr name)),
          (''downloads'', downloads),
          (''version'', version),
          (''published_at'', published_at),
          (''tier'', tier),
          (''source'', source)]))))))))))"

definition get_provider_downloads :: "(pyval \<Rightarrow> string) \<Rightarrow> pyval \<Rightarrow> pyexn + pyval" where
  "get_provider_downloads repr provider =
     (case get_provider_downloads_try repr provider of
        Inr provider_data \<Rightarrow> Inr provider_data
      | Inl e \<Rightarrow> try_bind (py_get provider ''id'' PNone) (\<lambda>logged_id. Inr PNone))"

text \<open>The \<^verbatim>\<open>for\<close> loop of \<open>generate_report\<close>, with \<open>report_data\<close> as its accumulator.\<close>

fun process_providers :: "(pyval \<Rightarrow> string) \<Rightarrow> pyval list \<Rightarrow> pyval list \<Rightarrow> pyexn + pyval list" where
  "process_providers repr [] report_data = Inr report_data"
| "process_providers repr (provider # rest) report_data =
     (case get_provider_downloads repr provider of
        Inl e \<Rightarrow> Inl e
      | Inr provider_data \<Rightarrow>
          process_providers repr rest
            (if truthy provider_data then report_data @ [provider_data] else report_data))"

definition generate_report ::
  "(pyval \<Rightarrow> string) \<Rightarrow> (string \<Rightarrow> response) \<Rightarrow> ((pyexn + pyval list) \<times> event list) option" where
  "generate_report repr http =
     (case get_all_providers http of
        None \<Rightarrow> None
      | Some (Inl e, trace) \<Rightarrow> Some (Inl e, trace)
      | Some (Inr providers, trace) \<Rightarrow> Some (process_providers repr providers [], trace))"

section \<open>daily-downloads-this-yr.py\<close>

definition self_providers :: "(string \<times> string) list" where
  "self_providers =
     [(''aws'', ''hashicorp/aws''),
      (''azure'', ''hashicorp/azurerm''),
      (''gcp'', ''hashicorp/google''),
      (''datadog'', ''datadog/datadog''),
      (''splunk'', ''splunk/splunk''),
      (''databricks'', ''databricks/databricks''),
      (''elastic'', ''elastic/ec'')]"

text \<open>
  \<open>get_provider_downloads\<close> of the daily script: the body of its \<^verbatim>\<open>try\<close> (unpacking
  the split raises ValueError unless there are exactly two parts), then the function:
  both handlers return \<open>None\<close>.
\<close>

definition daily_get_provider_downloads_try :: "(string \<Rightarrow> response) \<Rightarrow> string \<Rightarrow> pyexn + pyval" where
  "daily_get_provider_downloads_try http provider_path =
     (case split_on CHR ''/'' provider_path of
        [namespace, name] \<Rightarrow>
          (case http (base_url @ ''/providers/'' @ namespace @ ''/'' @ name) of
             Failed \<Rightarrow> Inl RequestException
           | Json data \<Rightarrow>
               try_bind (py_contains ''data'' data) (\<lambda>has_data.
                 if has_data then
                   try_bind (py_getitem data ''data'') (\<lambda>d.
                   try_bind (py_contains ''attributes'' d) (\<lambda>has_attributes.
                     if has_attributes then
                       try_bind (py_getitem d ''attributes'') (\<lambda>attributes.
                       try_bind (py_get attributes ''downloads'' (PInt 0)) (\<lambda>downloads.
                         Inr (PDict [(''downloads'', downloads)])))
                     else Inr PNone))
                 else Inr PNone))
      | _ \<Rightarrow> Inl ValueError)"

definition daily_get_provider_downloads :: "(string \<Rightarrow> response) \<Rightarrow> string \<Rightarrow> pyexn + pyval" where
  "daily_get_provider_downloads http provider_path =
     (case daily_get_provider_downloads_try http provider_path of
        Inr r \<Rightarrow> Inr r
      | Inl e \<Rightarrow> Inr PNone)"

definition calculate_monthly_downloads :: "pyval \<Rightarrow> pyexn + pyval" where
  "calculate_monthly_downloads data =
     (if \<not> truthy data then Inr (PInt 0)
      else (case py_get data ''downloads'' (PInt 0) of
              Inr downloads \<Rightarrow> Inr downloads
            | Inl e \<Rightarrow> if e = KeyError \<or> e = TypeError then Inr (PInt 0) else Inl e))"

text \<open>
  The daily \<open>generate_report\<close>. \<open>report_entry\<close> is one turn of its \<^verbatim>\<open>for\<close> loop: the dict
  it stores under \<open>provider_name\<close>, or the exception that leaves the function. \<open>now name\<close>
  is what \<^verbatim>\<open>datetime.now().isoformat()\<close> gives when the entry of \<open>name\<close> is built. The
  success branch formats the count with \<^verbatim>\<open>{downloads:,}\<close> for the log, and that raises
  outside any handler when the count is not a number. \<open>daily_report_loop\<close> is the loop,
  with the dict \<open>report\<close> as its accumulator. The sleeps and the log lines do not change
  the dict.
\<close>

definition report_entry ::
  "(string \<Rightarrow> response) \<Rightarrow> (string \<Rightarrow> string) \<Rightarrow> string \<Rightarrow> string \<Rightarrow> pyexn + pyval" where
  "report_entry http now provider_name provider_path =
     (case daily_get_provider_downloads http provider_path of
        Inl e \<Rightarrow> Inl e
      | Inr data \<Rightarrow>
          if truthy data then
            (case calculate_monthly_downloads data of
               Inl e \<Rightarrow> Inl e
             | Inr downloads \<Rightarrow>
                 (case format_comma downloads of
                    Some e \<Rightarrow> Inl e
                  | None \<Rightarrow>
                      Inr (PDict [(''provider'', PStr provider_path),
                                  (''total_downloads'', downloads),
                                  (''timestamp'', PStr (now provider_name))])))
          else
            Inr (PDict [(''provider'', PStr provider_path),
                        (''total_downloads'', PInt 0),
                        (''timestamp'', PStr (now provider_name)),
                        (''error'', PStr ''Failed to fetch data'')]))"

fun daily_report_loop ::
  "(string \<Rightarrow> response) \<Rightarrow> (string \<Rightarrow> string) \<Rightarrow> (string \<times> string) list \<Rightarrow> (string \<times> pyval) list
   \<Rightarrow> pyexn + (string \<times> pyval) list" where
  "daily_report_loop http now [] report = Inr report"
| "daily_report_loop http now ((provider_name, provider_path) # rest) report =
     (case report_entry http now provider_name provider_path of
        Inl e \<Rightarrow> Inl e
      | Inr entry \<Rightarrow> daily_report_loop http now rest (AList.update provider_name entry report))"

definition daily_generate_report ::
  "(string \<Rightarrow> response) \<Rightarrow> (string \<Rightarrow> string) \<Rightarrow> pyexn + (string \<times> pyval) list" where
  "daily_generate_report http now = daily_report_loop http now self_providers []"

section \<open>Notions the properties are stated with\<close>

text \<open>The data array of a page: the list under \<open>data\<close> of a response that is a JSON object.\<close>

fun data_array :: "response \<Rightarrow> pyval list option" where
  "data_array (Json (PDict kvs)) =
     (case map_of kvs ''data'' of Some (PList items) \<Rightarrow> Some items | _ \<Rightarrow> None)"
| "data_array _ = None"

text \<open>The URLs a run requested and the delays it slept, each in order.\<close>

fun requests :: "event list \<Rightarrow> string list" where
  "requests [] = []"
| "requests (Request url # es) = url # requests es"
| "requests (Sleep d # es) = requests es"

fun sleeps :: "event list \<Rightarrow> rat list" where
  "sleeps [] = []"
| "sleeps (Request url # es) = sleeps es"
| "sleeps (Sleep d # es) = d # sleeps es"

text \<open>
  A trace is paced when it is empty or is requests separated by exactly one sleep of half
  a second each: it starts and ends with a request, and no two requests are adjacent.
\<close>

fun paced :: "event list \<Rightarrow> bool" where
  "paced [] = True"
| "paced [Request u] = True"
| "paced (Request u # Sleep d # es) = (d = 1 / 2 \<and> es \<noteq> [] \<and> paced es)"
| "paced (Request u # Request v # es) = False"
| "paced (Sleep d # es) = False"

text \<open>
  Registries and clocks for concrete runs: a registry given by a table of URLs (any other
  URL fails), and the function that gives the same answer to every argument.
\<close>

definition registry_of :: "(string \<times> pyval) list \<Rightarrow> string \<Rightarrow> response" where
  "registry_of table url = (case map_of table url of Some body \<Rightarrow> Json body | None \<Rightarrow> Failed)"

definition always :: "'b \<Rightarrow> 'a \<Rightarrow> 'b" where
  "always v x = v"

text \<open>The URL the daily script asks for a provider path, and a detail body with given attributes.\<close>

definition detail_url :: "string \<Rightarrow> string" where
  "detail_url provider_path = base_url @ ''/providers/'' @ provider_path"

definition detail_body :: "(string \<times> pyval) list \<Rightarrow> pyval" where
  "detail_body attributes = PDict [(''data'', PDict [(''attributes'', PDict attributes)])]"

text \<open>The attributes object under \<open>data\<close> of a detail body, when the body has that shape.\<close>

fun data_attributes :: "pyval \<Rightarrow> (string \<times> pyval) list option" where
  "data_attributes (PDict kvs) =
     (case map_of kvs ''data'' of
        Some (PDict d) \<Rightarrow> (case map_of d ''attributes'' of Some (PDict a) \<Rightarrow> Some a | _ \<Rightarrow> None)
      | _ \<Rightarrow> None)"
| "data_attributes _ = None"

definition list_body :: "pyval list \<Rightarrow> pyval" where
  "list_body items = PDict [(''data'', PList items)]"

text \<open>What the daily fetch makes of a parsed body: \<open>None\<close> unless the body has
  \<open>data.attributes\<close>, else the dict with the downloads found there, 0 when there are none.\<close>

definition fetch_result :: "pyval \<Rightarrow> pyval" where
  "fetch_result body =
     (case data_attributes body of
        None \<Rightarrow> PNone
      | Some a \<Rightarrow> PDict [(''downloads'', dict_get a ''downloads'' (PInt 0))])"

text \<open>The trace of a run that went through the pages \<open>p\<close> up to, not including, \<open>k\<close>.\<close>

definition pages_trace :: "nat \<Rightarrow> nat \<Rightarrow> event list" where
  "pages_trace p k = concat (map (\<lambda>i. [Request (page_url i), Sleep (1 / 2)]) [p..<k])"

section \<open>Pagination of the full crawl\<close>

lemma data_arrayD:
  "data_array r = Some items \<Longrightarrow>
   \<exists>kvs. r = Json (PDict kvs) \<and> map_of kvs ''data'' = Some (PList items)"
  by (cases r rule: data_array.cases) (auto split: option.splits pyval.splits)

lemma loop_failed:
  "http (page_url p) = Failed \<Longrightarrow>
   get_all_providers_loop http p acc tr = Some (Inr acc, tr @ [Request (page_url p)])"
  by (subst get_all_providers_loop.simps) (simp add: Let_def)

lemma loop_empty:
  "data_array (http (page_url p)) = Some [] \<Longrightarrow>
   get_all_providers_loop http p acc tr = Some (Inr acc, tr @ [Request (page_url p)])"
  by (subst get_all_providers_loop.simps) (auto simp: Let_def dict_get_def dest!: data_arrayD)

lemma loop_extend:
  "data_array (http (page_url p)) = Some items \<Longrightarrow> items \<noteq> [] \<Longrightarrow>
   get_all_providers_loop http p acc tr =
   get_all_providers_loop http (Suc p) (acc @ items) (tr @ [Request (page_url p), Sleep (1 / 2)])"
  by (subst get_all_providers_loop.simps) (auto simp: Let_def dict_get_def dest!: data_arrayD)

lemma loop_pages:
  assumes "p \<le> k"
    and "\<forall>i. p \<le> i \<and> i < k \<longrightarrow> data_array (http (page_url i)) = Some (items i) \<and> items i \<noteq> []"
  shows "get_all_providers_loop http p acc tr =
         get_all_providers_loop http k (acc @ concat (map items [p..<k])) (tr @ pages_trace p k)"
  using assms
proof (induction k rule: dec_induct)
  case base
  then show ?case by (simp add: pages_trace_def)
next
  case (step n)
  then have "data_array (http (page_url n)) = Some (items n)" "items n \<noteq> []" by auto
  from loop_extend [of http n "items n"] this step show ?case by (simp add: pages_trace_def)
qed

lemma requests_append: "requests (xs @ ys) = requests xs @ requests ys"
  by (induction xs rule: requests.induct) auto

lemma sleeps_append: "sleeps (xs @ ys) = sleeps xs @ sleeps ys"
  by (induction xs rule: sleeps.induct) auto

lemma requests_pages_trace: "requests (pages_trace p k) = map page_url [p..<k]"
  unfolding pages_trace_def by (induction k) (auto simp: requests_append)

lemma run_to_stop:
  assumes "1 \<le> k"
    and "\<forall>i. 1 \<le> i \<and> i < k \<longrightarrow> data_array (http (page_url i)) = Some (items i) \<and> items i \<noteq> []"
    and "http (page_url k) = Failed \<or> data_array (http (page_url k)) = Some []"
  shows "get_all_providers http =
         Some (Inr (concat (map items [1..<k])), pages_trace 1 k @ [Request (page_url k)])"
proof -
  have "get_all_providers http =
        get_all_providers_loop http k (concat (map items [1..<k])) (pages_trace 1 k)"
    using loop_pages [OF assms(1,2), of "[]" "[]"] by (simp add: get_all_providers_def)
  with assms(3) show ?thesis by (auto simp: loop_failed loop_empty)
qed

lemma page_url_1:
  "page_url (Suc 0) = ''https://registry.terraform.io/v2/providers?page[number]=1&page[size]=50''"
  by (simp add: page_url_def base_url_def str_int_def digits.simps)

lemma page_url_2:
  "page_url 2 = ''https://registry.terraform.io/v2/providers?page[number]=2&page[size]=50''"
  by (simp add: page_url_def base_url_def str_int_def digits.simps)

lemma page_url_3:
  "page_url 3 = ''https://registry.terraform.io/v2/providers?page[number]=3&page[size]=50''"
  by (simp add: page_url_def base_url_def str_int_def digits.simps)

text \<open>
  C1. Let the registry answer the pages \<open>1, \<dots>, k - 1\<close> with non-empty data arrays
  \<open>items 1, \<dots>, items (k - 1)\<close> and page \<open>k\<close> with an empty data array. Then
  \<open>get_all_providers\<close> returns (it is not \<open>None\<close>, and it does not raise), and what it
  returns is the concatenation of those arrays in page order.
\<close>

theorem fetch_all_pages:
  assumes "1 \<le> k"
    and "\<forall>i. 1 \<le> i \<and> i < k \<longrightarrow> data_array (http (page_url i)) = Some (items i) \<and> items i \<noteq> []"
    and "data_array (http (page_url k)) = Some []"
  shows "\<exists>trace. get_all_providers http = Some (Inr (concat (map items [1..<k])), trace)"
  using run_to_stop [OF assms(1,2)] assms(3) by blast

theorem fetch_all_pages_witness:
  "\<exists>trace. get_all_providers (registry_of
      [(page_url 1, list_body [PDict [(''id'', PStr ''1'')], PDict [(''id'', PStr ''2'')]]),
       (page_url 2, list_body [PDict [(''id'', PStr ''3'')]]),
       (page_url 3, list_body [])])
   = Some (Inr [PDict [(''id'', PStr ''1'')], PDict [(''id'', PStr ''2'')],
                PDict [(''id'', PStr ''3'')]], trace)"
proof -
  let ?http = "registry_of
      [(page_url 1, list_body [PDict [(''id'', PStr ''1'')], PDict [(''id'', PStr ''2'')]]),
       (page_url 2, list_body [PDict [(''id'', PStr ''3'')]]),
       (page_url 3, list_body [])]"
  let ?items = "\<lambda>i::nat. if i = 1 then [PDict [(''id'', PStr ''1'')], PDict [(''id'', PStr ''2'')]]
                   else [PDict [(''id'', PStr ''3'')]]"
  have pages: "\<forall>i. 1 \<le> i \<and> i < 3 \<longrightarrow>
      data_array (?http (page_url i)) = Some (?items i) \<and> ?items i \<noteq> []"
  proof (intro allI impI)
    fix i :: nat assume "1 \<le> i \<and> i < 3"
    then consider "i = 1" | "i = 2" by linarith
    then show "data_array (?http (page_url i)) = Some (?items i) \<and> ?items i \<noteq> []"
      by cases (simp_all add: registry_of_def list_body_def page_url_1 page_url_2 page_url_3)
  qed
  have last: "data_array (?http (page_url 3)) = Some []"
    by (simp add: registry_of_def list_body_def page_url_1 page_url_2 page_url_3)
  have "[1..<3] = [1, 2::nat]" by (simp add: upt_rec)
  with fetch_all_pages [of 3 ?http ?items, OF _ pages last] show ?thesis by simp
qed

lemma paced_snoc:
  "paced (tr @ [Request a]) \<Longrightarrow> paced (tr @ [Request a, Sleep (1 / 2), Request b])"
  by (induction tr rule: paced.induct) auto

lemma loop_paced:
  assumes "get_all_providers_loop http page providers trace = Some y"
  shows "(\<forall>u. paced (trace @ [Request u])) \<longrightarrow> paced (snd y)"
  using assms
proof (induction http page providers trace y rule: get_all_providers_loop.raw_induct)
  case (1 loop http page providers trace y)
  show ?case
  proof
    assume open_trace: "\<forall>u. paced (trace @ [Request u])"
    then have *: "\<forall>u. paced ((trace @ [Request (page_url page)]) @ [Sleep (1 / 2)] @ [Request u])"
      by (simp add: paced_snoc)
    from 1 open_trace * show "paced (snd y)"
      apply (auto simp: Let_def split: response.splits sum.splits if_splits)
      apply (subst (asm) get_all_providers_loop.simps)
      apply (simp add: Let_def)
      apply (cases y)
      apply fastforce
      done
  qed
qed (rule assms)

lemma run_paced: "get_all_providers http = Some (res, tr) \<Longrightarrow> paced tr"
  using loop_paced [of http 1 "[]" "[]" "(res, tr)"] by (simp add: get_all_providers_def)

text \<open>
  C4. Whatever the loop has fetched so far, a request that fails (no connection or an
  error status) ends it at once: the function returns exactly the items accumulated
  before, and the failed request is the last event of the run. In particular, when the
  pages \<open>1, \<dots>, k - 1\<close> were answered with non-empty data arrays and the request for page
  \<open>k\<close> fails, the run returns the items of the pages before \<open>k\<close>, and the URLs it
  requested are those of the pages \<open>1, \<dots>, k\<close>: no page after the failed one is asked
  for.
\<close>

theorem pagination_stops_on_failure:
  assumes "http (page_url k) = Failed"
  shows "get_all_providers_loop http k providers trace =
           Some (Inr providers, trace @ [Request (page_url k)]) \<and>
         (1 \<le> k \<and>
          (\<forall>i. 1 \<le> i \<and> i < k \<longrightarrow> data_array (http (page_url i)) = Some (items i) \<and> items i \<noteq> []) \<longrightarrow>
          (\<exists>tr. get_all_providers http = Some (Inr (concat (map items [1..<k])), tr) \<and>
                requests tr = map page_url [1..<Suc k]))"
proof (intro conjI impI)
  show "get_all_providers_loop http k providers trace =
           Some (Inr providers, trace @ [Request (page_url k)])"
    using assms by (rule loop_failed)
next
  assume "1 \<le> k \<and>
    (\<forall>i. 1 \<le> i \<and> i < k \<longrightarrow> data_array (http (page_url i)) = Some (items i) \<and> items i \<noteq> [])"
  then have k: "1 \<le> k"
    and pages: "\<forall>i. 1 \<le> i \<and> i < k \<longrightarrow> data_array (http (page_url i)) = Some (items i) \<and> items i \<noteq> []"
    by blast+
  from run_to_stop [OF k pages] assms k
  show "\<exists>tr. get_all_providers http = Some (Inr (concat (map items [1..<k])), tr) \<and>
              requests tr = map page_url [1..<Suc k]"
    by (simp add: requests_append requests_pages_trace)
qed

theorem pagination_stops_on_failure_witness:
  "\<exists>trace. get_all_providers (registry_of
      [(page_url 1, list_body [PDict [(''id'', PStr ''1'')], PDict [(''id'', PStr ''2'')]])])
     = Some (Inr [PDict [(''id'', PStr ''1'')], PDict [(''id'', PStr ''2'')]], trace) \<and>
     requests trace = [page_url 1, page_url 2]"
proof -
  let ?http = "registry_of
      [(page_url 1, list_body [PDict [(''id'', PStr ''1'')], PDict [(''id'', PStr ''2'')]])]"
  let ?items = "\<lambda>i::nat. [PDict [(''id'', PStr ''1'')], PDict [(''id'', PStr ''2'')]]"
  have pages: "\<forall>i. 1 \<le> i \<and> i < 2 \<longrightarrow>
      data_array (?http (page_url i)) = Some (?items i) \<and> ?items i \<noteq> []"
  proof (intro allI impI)
    fix i :: nat assume "1 \<le> i \<and> i < 2"
    then have "i = 1" by linarith
    then show "data_array (?http (page_url i)) = Some (?items i) \<and> ?items i \<noteq> []"
      by (simp add: registry_of_def list_body_def page_url_1)
  qed
  have failed: "?http (page_url 2) = Failed"
    by (simp add: registry_of_def page_url_1 page_url_2)
  have "[1..<2] = [1::nat]" "[1..<Suc 2] = [1, 2::nat]" by (simp_all add: upt_rec)
  with pagination_stops_on_failure [of ?http 2 "[]" "[]" ?items, OF failed] pages
  show ?thesis by simp
qed

text \<open>
  C9. The trace of every run of \<open>get_all_providers\<close> that ends, however it ends, is
  paced: between two consecutive page requests lies exactly one sleep, of half a second.
  When page 1 holds 50 items and page 2 none, the run returns 50 records after two
  requests and one sleep.
\<close>

theorem inter_page_delay:
  "(get_all_providers http = Some (res, trace) \<longrightarrow> paced trace) \<and>
   (data_array (http (page_url 1)) = Some page1 \<and> length page1 = 50 \<and>
    data_array (http (page_url 2)) = Some [] \<longrightarrow>
      (\<exists>providers tr. get_all_providers http = Some (Inr providers, tr) \<and>
         length providers = 50 \<and> sleeps tr = [1 / 2] \<and> requests tr = [page_url 1, page_url 2]))"
proof (intro conjI impI)
  assume "get_all_providers http = Some (res, trace)"
  then show "paced trace" by (rule run_paced)
next
  assume a: "data_array (http (page_url 1)) = Some page1 \<and> length page1 = 50 \<and>
    data_array (http (page_url 2)) = Some []"
  then have "\<forall>i. 1 \<le> i \<and> i < 2 \<longrightarrow>
      data_array (http (page_url i)) = Some ((\<lambda>_. page1) i) \<and> (\<lambda>_. page1) i \<noteq> []"
    by (auto simp: le_less_Suc_eq numeral_2_eq_2)
  from run_to_stop [of 2 http "\<lambda>_. page1", OF _ this] a
  have "get_all_providers http = Some (Inr page1, pages_trace 1 2 @ [Request (page_url 2)])"
    by (simp add: numeral_2_eq_2)
  moreover have "pages_trace 1 2 = [Request (page_url 1), Sleep (1 / 2)]"
    by (simp add: pages_trace_def numeral_2_eq_2)
  ultimately show "\<exists>providers tr. get_all_providers http = Some (Inr providers, tr) \<and>
         length providers = 50 \<and> sleeps tr = [1 / 2] \<and> requests tr = [page_url 1, page_url 2]"
    using a by simp
qed

theorem inter_page_delay_witness:
  "\<exists>providers tr. get_all_providers (registry_of
      [(page_url 1, list_body (replicate 50 (PDict [(''id'', PStr ''p'')]))),
       (page_url 2, list_body [])]) = Some (Inr providers, tr) \<and>
     length providers = 50 \<and> sleeps tr = [1 / 2] \<and> requests tr = [page_url 1, page_url 2] \<and> paced tr"
proof -
  let ?http = "registry_of
      [(page_url 1, list_body (replicate 50 (PDict [(''id'', PStr ''p'')]))),
       (page_url 2, list_body [])]"
  have p1: "data_array (?http (page_url 1)) = Some (replicate 50 (PDict [(''id'', PStr ''p'')]))"
    by (simp add: registry_of_def list_body_def page_url_1)
  have p2: "data_array (?http (page_url 2)) = Some []"
    by (simp add: registry_of_def list_body_def page_url_1 page_url_2)
  from inter_page_delay [of ?http "Inr []" "[]" "replicate 50 (PDict [(''id'', PStr ''p'')])"] p1 p2
  obtain providers tr where run: "get_all_providers ?http = Some (Inr providers, tr)"
    and rest: "length providers = 50" "sleeps tr = [1 / 2]" "requests tr = [page_url 1, page_url 2]"
    by auto
  from inter_page_delay [of ?http "Inr providers" tr] run have "paced tr" by blast
  with run rest show ?thesis by blast
qed

section \<open>Extraction of one item in the full crawl\<close>

lemma try_bind_simps:
  "try_bind (Inl e) f = Inl e" "try_bind (Inr v) f = f v"
  by (simp_all add: try_bind_def)

lemma try_well_formed:
  assumes "map_of kvs ''id'' = Some i" and "map_of kvs ''attributes'' = Some (PDict a)"
  shows "get_provider_downloads_try repr (PDict kvs) =
         Inr (PDict
           [(''id'', i),
            (''namespace'', dict_get a ''namespace'' PNone),
            (''name'', dict_get a ''name'' PNone),
            (''full_name'', PStr (py_str repr (dict_get a ''namespace'' PNone) @ ''/'' @
                                  py_str repr (dict_get a ''name'' PNone))),
            (''downloads'', dict_get a ''downloads'' (PInt 0)),
            (''version'', dict_get a ''version'' PNone),
            (''published_at'', dict_get a ''published-at'' PNone),
            (''tier'', dict_get a ''tier'' PNone),
            (''source'', dict_get a ''source'' PNone)])"
  using assms by (simp add: get_provider_downloads_try_def try_bind_simps py_get.simps)

lemma py_get_not_dict: "(\<forall>a. v \<noteq> PDict a) \<Longrightarrow> py_get v k dflt = Inl AttributeError"
  by (cases v) auto

lemma try_malformed:
  assumes "map_of kvs ''id'' = None \<or> map_of kvs ''attributes'' = None \<or>
           (\<exists>v. map_of kvs ''attributes'' = Some v \<and> (\<forall>a. v \<noteq> PDict a))"
  shows "\<exists>e. get_provider_downloads_try repr (PDict kvs) = Inl e"
  using assms
  by (cases "map_of kvs ''id''"; cases "map_of kvs ''attributes''")
     (auto simp: get_provider_downloads_try_def try_bind_simps py_get_not_dict)

lemma try_not_dict: "(\<forall>kvs. provider \<noteq> PDict kvs) \<Longrightarrow> get_provider_downloads_try repr provider = Inl TypeError"
  by (cases provider) (auto simp: get_provider_downloads_try_def try_bind_simps)

lemma item_well_formed:
  assumes "map_of kvs ''id'' = Some i" and "map_of kvs ''attributes'' = Some (PDict a)"
  shows "get_provider_downloads repr (PDict kvs) =
         Inr (PDict
           [(''id'', i),
            (''namespace'', dict_get a ''namespace'' PNone),
            (''name'', dict_get a ''name'' PNone),
            (''full_name'', PStr (py_str repr (dict_get a ''namespace'' PNone) @ ''/'' @
                                  py_str repr (dict_get a ''name'' PNone))),
            (''downloads'', dict_get a ''downloads'' (PInt 0)),
            (''version'', dict_get a ''version'' PNone),
            (''published_at'', dict_get a ''published-at'' PNone),
            (''tier'', dict_get a ''tier'' PNone),
            (''source'', dict_get a ''source'' PNone)])"
  by (simp add: get_provider_downloads_def try_well_formed [OF assms])

lemma item_malformed:
  assumes "map_of kvs ''id'' = None \<or> map_of kvs ''attributes'' = None \<or>
           (\<exists>v. map_of kvs ''attributes'' = Some v \<and> (\<forall>a. v \<noteq> PDict a))"
  shows "get_provider_downloads repr (PDict kvs) = Inr PNone"
  using try_malformed [OF assms, of repr]
  by (auto simp: get_provider_downloads_def try_bind_simps py_get.simps)

lemma item_not_dict:
  "(\<forall>kvs. provider \<noteq> PDict kvs) \<Longrightarrow> get_provider_downloads repr provider = Inl AttributeError"
  by (simp add: get_provider_downloads_def try_not_dict py_get_not_dict try_bind_simps)

lemma item_cases:
  obtains (not_dict) "\<forall>kvs. provider \<noteq> PDict kvs"
  | (malformed) kvs where "provider = PDict kvs"
      "map_of kvs ''id'' = None \<or> map_of kvs ''attributes'' = None \<or>
           (\<exists>v. map_of kvs ''attributes'' = Some v \<and> (\<forall>a. v \<noteq> PDict a))"
  | (well_formed) kvs i a where "provider = PDict kvs" "map_of kvs ''id'' = Some i"
      "map_of kvs ''attributes'' = Some (PDict a)"
  by (cases provider) (metis option.exhaust)+

lemma process_providers_append:
  "process_providers repr (xs @ ys) acc =
     (case process_providers repr xs acc of Inl e \<Rightarrow> Inl e | Inr acc' \<Rightarrow> process_providers repr ys acc')"
  by (induction xs arbitrary: acc) (auto split: sum.splits)

text \<open>
  C6, as amended. A raw item that is a JSON object without \<open>attributes\<close> or without \<open>id\<close>
  makes \<open>get_provider_downloads\<close> return \<open>None\<close> without raising, and the loop over the
  items gives what it gives without that item. (An item that is not an object at all is
  another matter: the handler's own \<^verbatim>\<open>provider.get('id')\<close> raises, see the
  counterexample.)
\<close>

theorem malformed_item_skipped:
  assumes "map_of kvs ''attributes'' = None \<or> map_of kvs ''id'' = None"
  shows "get_provider_downloads repr (PDict kvs) = Inr PNone \<and>
         process_providers repr (before @ PDict kvs # after) report_data =
         process_providers repr (before @ after) report_data"
proof -
  have none: "get_provider_downloads repr (PDict kvs) = Inr PNone"
    using assms by (intro item_malformed) auto
  then show ?thesis
    by (simp add: process_providers_append split: sum.splits)
qed

theorem malformed_item_skipped_witness:
  "get_provider_downloads (always ''float'') (PDict [(''id'', PStr ''7'')]) = Inr PNone \<and>
   process_providers (always ''float'')
     [PDict [(''id'', PStr ''7'')],
      PDict [(''id'', PStr ''323''), (''attributes'', PDict [(''name'', PStr ''aws'')])]] []
   = process_providers (always ''float'')
     [PDict [(''id'', PStr ''323''), (''attributes'', PDict [(''name'', PStr ''aws'')])]] []"
proof -
  have "map_of [(''id'', PStr ''7'')] ''attributes'' = None \<or> map_of [(''id'', PStr ''7'')] ''id'' = None"
    by simp
  from malformed_item_skipped [OF this, of "always ''float''" "[]"
      "[PDict [(''id'', PStr ''323''), (''attributes'', PDict [(''name'', PStr ''aws'')])]]" "[]"]
  show ?thesis by simp
qed

theorem malformed_item_skipped_counterexample:
  "get_provider_downloads (always ''float'') (PStr ''hashicorp/aws'') = Inl AttributeError \<and>
   process_providers (always ''float'')
     [PStr ''hashicorp/aws'',
      PDict [(''id'', PStr ''323''), (''attributes'', PDict [(''name'', PStr ''aws'')])]] []
     = Inl AttributeError"
  by (simp add: item_not_dict)

text \<open>
  C8. In every dict \<open>get_provider_downloads\<close> produces, \<open>full_name\<close> is the text of
  its \<open>namespace\<close>, a slash, and the text of its \<open>name\<close>. With namespace
  \<open>hashicorp\<close> and name \<open>aws\<close> that is \<open>hashicorp/aws\<close>; with the namespace \<open>None\<close>
  (given as null, or not given) it is \<open>None/aws\<close>.
\<close>

theorem full_name_concatenation:
  "(get_provider_downloads repr provider = Inr (PDict fields) \<longrightarrow>
      (\<exists>namespace name.
         map_of fields ''namespace'' = Some namespace \<and> map_of fields ''name'' = Some name \<and>
         map_of fields ''full_name'' = Some (PStr (py_str repr namespace @ ''/'' @ py_str repr name)))) \<and>
   (\<exists>r. get_provider_downloads repr
           (PDict [(''id'', i), (''attributes'',
              PDict [(''namespace'', PStr ''hashicorp''), (''name'', PStr ''aws'')])]) = Inr (PDict r) \<and>
         map_of r ''full_name'' = Some (PStr ''hashicorp/aws'')) \<and>
   (\<exists>r. get_provider_downloads repr
           (PDict [(''id'', i), (''attributes'',
              PDict [(''namespace'', PNone), (''name'', PStr ''aws'')])]) = Inr (PDict r) \<and>
         map_of r ''full_name'' = Some (PStr ''None/aws'')) \<and>
   (\<exists>r. get_provider_downloads repr
           (PDict [(''id'', i), (''attributes'', PDict [(''name'', PStr ''aws'')])]) = Inr (PDict r) \<and>
         map_of r ''full_name'' = Some (PStr ''None/aws''))"
proof (intro conjI impI)
  assume run: "get_provider_downloads repr provider = Inr (PDict fields)"
  show "\<exists>namespace name.
         map_of fields ''namespace'' = Some namespace \<and> map_of fields ''name'' = Some name \<and>
         map_of fields ''full_name'' = Some (PStr (py_str repr namespace @ ''/'' @ py_str repr name))"
  proof (cases provider rule: item_cases)
    case not_dict
    with run show ?thesis by (simp add: item_not_dict)
  next
    case (malformed kvs)
    with run show ?thesis by (simp add: item_malformed)
  next
    case (well_formed kvs i a)
    with run show ?thesis by (auto simp: item_well_formed)
  qed
qed (simp_all add: item_well_formed dict_get_def)

theorem full_name_concatenation_witness:
  "get_provider_downloads (always ''float'')
     (PDict [(''id'', PStr ''323''),
             (''attributes'', PDict [(''namespace'', PStr ''hashicorp''), (''name'', PStr ''aws''),
                                     (''downloads'', PInt 5)])])
   = Inr (PDict [(''id'', PStr ''323''),
                 (''namespace'', PStr ''hashicorp''),
                 (''name'', PStr ''aws''),
                 (''full_name'', PStr ''hashicorp/aws''),
                 (''downloads'', PInt 5),
                 (''version'', PNone),
                 (''published_at'', PNone),
                 (''tier'', PNone),
                 (''source'', PNone)]) \<and>
   (\<exists>namespace name.
      map_of [(''id'', PStr ''323''),
                 (''namespace'', PStr ''hashicorp''),
                 (''name'', PStr ''aws''),
                 (''full_name'', PStr ''hashicorp/aws''),
                 (''downloads'', PInt 5),
                 (''version'', PNone),
                 (''published_at'', PNone),
                 (''tier'', PNone),
                 (''source'', PNone)] ''full_name''
        = Some (PStr (py_str (always ''float'') namespace @ ''/'' @ py_str (always ''float'') name)) \<and>
      namespace = PStr ''hashicorp'' \<and> name = PStr ''aws'')"
proof -
  let ?item = "PDict [(''id'', PStr ''323''),
             (''attributes'', PDict [(''namespace'', PStr ''hashicorp''), (''name'', PStr ''aws''),
                                     (''downloads'', PInt 5)])]"
  let ?fields = "[(''id'', PStr ''323''),
                 (''namespace'', PStr ''hashicorp''),
                 (''name'', PStr ''aws''),
                 (''full_name'', PStr ''hashicorp/aws''),
                 (''downloads'', PInt 5),
                 (''version'', PNone),
                 (''published_at'', PNone),
                 (''tier'', PNone),
                 (''source'', PNone)]"
  have run: "get_provider_downloads (always ''float'') ?item = Inr (PDict ?fields)"
    by (simp add: item_well_formed dict_get_def)
  from full_name_concatenation [of "always ''float''" ?item ?fields] run
  show ?thesis by simp
qed

section \<open>The daily fetch\<close>

lemma split_on_nonempty: "split_on c s \<noteq> []"
  by (induction s) (auto split: list.splits)

lemma split_on_single: "split_on c s = [b] \<Longrightarrow> s = b"
  by (induction s arbitrary: b) (auto simp: split_on_nonempty split: if_splits list.splits)

lemma split_on_pair: "split_on c s = [a, b] \<Longrightarrow> a @ c # b = s"
  by (induction s arbitrary: a) (auto simp: split_on_nonempty split: if_splits list.splits dest: split_on_single)

lemma json_chain:
  "(case try_bind (py_contains ''data'' data) (\<lambda>has_data.
                 if has_data then
                   try_bind (py_getitem data ''data'') (\<lambda>d.
                   try_bind (py_contains ''attributes'' d) (\<lambda>has_attributes.
                     if has_attributes then
                       try_bind (py_getitem d ''attributes'') (\<lambda>attributes.
                       try_bind (py_get attributes ''downloads'' (PInt 0)) (\<lambda>downloads.
                         Inr (PDict [(''downloads'', downloads)])))
                     else Inr PNone))
                 else Inr PNone) of Inr r \<Rightarrow> Inr r | Inl e \<Rightarrow> Inr PNone) = (Inr (fetch_result data) :: pyexn + pyval)"
proof (cases data)
  case (PDict kvs)
  show ?thesis
  proof (cases "map_of kvs ''data''")
    case None
    with PDict show ?thesis by (simp add: try_bind_simps fetch_result_def)
  next
    case (Some d)
    show ?thesis
    proof (cases d)
      case (PDict dd)
      show ?thesis
      proof (cases "map_of dd ''attributes''")
        case None
        with \<open>data = PDict kvs\<close> Some PDict show ?thesis by (simp add: try_bind_simps fetch_result_def)
      next
        case (Some a)
        with \<open>data = PDict kvs\<close> \<open>map_of kvs ''data'' = Some d\<close> PDict show ?thesis
          by (cases a) (simp_all add: try_bind_simps fetch_result_def)
      qed
    qed (use \<open>data = PDict kvs\<close> Some in \<open>simp_all add: try_bind_simps fetch_result_def\<close>)
  qed
qed (simp_all add: try_bind_simps fetch_result_def)

lemma daily_result:
  "daily_get_provider_downloads http provider_path =
     Inr (case split_on CHR ''/'' provider_path of
            [namespace, name] \<Rightarrow>
              (case http (detail_url provider_path) of Failed \<Rightarrow> PNone | Json body \<Rightarrow> fetch_result body)
          | _ \<Rightarrow> PNone)"
proof (cases "\<exists>namespace name. split_on CHR ''/'' provider_path = [namespace, name]")
  case True
  then obtain namespace name where sp: "split_on CHR ''/'' provider_path = [namespace, name]"
    by blast
  then have url: "base_url @ ''/providers/'' @ namespace @ ''/'' @ name = detail_url provider_path"
    using split_on_pair [OF sp] by (simp add: detail_url_def)
  show ?thesis
  proof (cases "http (detail_url provider_path)")
    case Failed
    with sp url show ?thesis
      by (simp add: daily_get_provider_downloads_def daily_get_provider_downloads_try_def)
  next
    case (Json body)
    with sp url json_chain [of body] show ?thesis
      by (simp add: daily_get_provider_downloads_def daily_get_provider_downloads_try_def)
  qed
next
  case False
  then show ?thesis
    by (auto simp: daily_get_provider_downloads_def daily_get_provider_downloads_try_def
          split: list.splits)
qed

lemma daily_shape:
  "daily_get_provider_downloads http p = Inr PNone \<or>
   (\<exists>v. daily_get_provider_downloads http p = Inr (PDict [(''downloads'', v)]))"
  by (simp add: daily_result fetch_result_def split: list.splits response.splits option.splits)

lemma provider_paths_split:
  "(name, path) \<in> set self_providers \<Longrightarrow> \<exists>ns nm. split_on CHR ''/'' path = [ns, nm]"
  by (auto simp: self_providers_def)

lemmas eval_daily = self_providers_def daily_result fetch_result_def registry_of_def detail_url_def
  base_url_def detail_body_def dict_get_def always_def

text \<open>
  C5, as amended. For every provider path, the daily \<open>get_provider_downloads\<close> never
  raises; it returns \<open>None\<close> when the request fails and when the body has no
  \<open>data.attributes\<close>; and what it returns otherwise is the dict \<open>{downloads: v}\<close>, where
  \<open>v\<close> is whatever the body holds under \<open>downloads\<close>, unchanged, or 0 when it holds
  nothing: an integer when the body's value is one, but the value is not checked (the
  counterexample returns a string).
\<close>

theorem fetch_downloads_total:
  "(\<exists>r. daily_get_provider_downloads http provider_path = Inr r \<and>
        (r = PNone \<or> (\<exists>v. r = PDict [(''downloads'', v)]))) \<and>
   (http (detail_url provider_path) = Failed \<longrightarrow>
      daily_get_provider_downloads http provider_path = Inr PNone) \<and>
   (\<forall>body. http (detail_url provider_path) = Json body \<and> data_attributes body = None \<longrightarrow>
      daily_get_provider_downloads http provider_path = Inr PNone) \<and>
   (\<forall>body a v. http (detail_url provider_path) = Json body \<and> data_attributes body = Some a \<and>
      daily_get_provider_downloads http provider_path = Inr (PDict [(''downloads'', v)]) \<longrightarrow>
      v = dict_get a ''downloads'' (PInt 0) \<and>
      (map_of a ''downloads'' = None \<longrightarrow> v = PInt 0) \<and>
      (\<forall>n. map_of a ''downloads'' = Some (PInt n) \<longrightarrow> v = PInt n))"
proof (intro conjI allI impI)
  show "\<exists>r. daily_get_provider_downloads http provider_path = Inr r \<and>
        (r = PNone \<or> (\<exists>v. r = PDict [(''downloads'', v)]))"
    using daily_shape [of http provider_path] by auto
next
  assume "http (detail_url provider_path) = Failed"
  then show "daily_get_provider_downloads http provider_path = Inr PNone"
    by (simp add: daily_result split: list.splits)
next
  fix body assume "http (detail_url provider_path) = Json body \<and> data_attributes body = None"
  then show "daily_get_provider_downloads http provider_path = Inr PNone"
    by (simp add: daily_result fetch_result_def split: list.splits)
next
  fix body a v
  assume a: "http (detail_url provider_path) = Json body \<and> data_attributes body = Some a \<and>
      daily_get_provider_downloads http provider_path = Inr (PDict [(''downloads'', v)])"
  then show v: "v = dict_get a ''downloads'' (PInt 0)"
    by (auto simp: daily_result fetch_result_def split: list.splits)
  { assume "map_of a ''downloads'' = None"
    with v show "v = PInt 0" by (simp add: dict_get_def) }
  { fix n assume "map_of a ''downloads'' = Some (PInt n)"
    with v show "v = PInt n" by (simp add: dict_get_def) }
qed

theorem fetch_downloads_total_witness:
  "daily_get_provider_downloads
     (registry_of [(detail_url ''hashicorp/aws'', detail_body [(''downloads'', PInt 12345)])])
     ''hashicorp/aws'' = Inr (PDict [(''downloads'', PInt 12345)]) \<and>
   daily_get_provider_downloads
     (registry_of [(detail_url ''hashicorp/aws'', detail_body [(''downloads'', PInt 12345)])])
     ''hashicorp/google'' = Inr PNone"
proof -
  let ?http = "registry_of [(detail_url ''hashicorp/aws'', detail_body [(''downloads'', PInt 12345)])]"
  have failed: "?http (detail_url ''hashicorp/google'') = Failed"
    by (simp add: registry_of_def detail_url_def base_url_def)
  have body: "?http (detail_url ''hashicorp/aws'') = Json (detail_body [(''downloads'', PInt 12345)])"
    by (simp add: registry_of_def detail_url_def base_url_def)
  have attrs: "data_attributes (detail_body [(''downloads'', PInt 12345)]) = Some [(''downloads'', PInt 12345)]"
    by (simp add: detail_body_def)
  have lookup: "map_of [(''downloads'', PInt 12345)] ''downloads'' = Some (PInt 12345)" by simp
  from fetch_downloads_total [of ?http "''hashicorp/google''"] failed
  have absent: "daily_get_provider_downloads ?http ''hashicorp/google'' = Inr PNone" by blast
  from fetch_downloads_total [of ?http "''hashicorp/aws''"] obtain r where
    r: "daily_get_provider_downloads ?http ''hashicorp/aws'' = Inr r"
    and shape: "r = PNone \<or> (\<exists>v. r = PDict [(''downloads'', v)])" by blast
  have "r \<noteq> PNone" using r by (auto simp: eval_daily)
  with shape obtain v where v: "r = PDict [(''downloads'', v)]" by blast
  with fetch_downloads_total [of ?http "''hashicorp/aws''"] body attrs lookup r
  have "v = PInt 12345" by blast
  with r v absent show ?thesis by simp
qed

theorem fetch_downloads_total_counterexample:
  "daily_get_provider_downloads
     (registry_of [(detail_url ''hashicorp/aws'', detail_body [(''downloads'', PStr ''12345'')])])
     ''hashicorp/aws'' = Inr (PDict [(''downloads'', PStr ''12345'')])"
  by (simp add: eval_daily)

section \<open>The daily report\<close>

lemma report_entry_absent:
  "daily_get_provider_downloads http p = Inr PNone \<Longrightarrow>
   report_entry http now n p =
     Inr (PDict [(''provider'', PStr p), (''total_downloads'', PInt 0),
                 (''timestamp'', PStr (now n)), (''error'', PStr ''Failed to fetch data'')])"
  by (simp add: report_entry_def)

lemma report_entry_found:
  "daily_get_provider_downloads http p = Inr (PDict [(''downloads'', v)]) \<Longrightarrow>
   report_entry http now n p =
     (case format_comma v of
        Some e \<Rightarrow> Inl e
      | None \<Rightarrow> Inr (PDict [(''provider'', PStr p), (''total_downloads'', v),
                            (''timestamp'', PStr (now n))]))"
  by (simp add: report_entry_def calculate_monthly_downloads_def dict_get_def)

lemma update_fresh: "k \<notin> fst ` set al \<Longrightarrow> AList.update k v al = al @ [(k, v)]"
  by (induction al) auto

lemma set_update_subset: "set (AList.update k v al) \<subseteq> insert (k, v) (set al)"
  by (induction al) auto

lemma loop_keys:
  "daily_report_loop http now ps report = Inr out \<Longrightarrow> distinct (map fst report @ map fst ps) \<Longrightarrow>
   map fst out = map fst report @ map fst ps"
proof (induction ps arbitrary: report)
  case Nil
  then show ?case by simp
next
  case (Cons np ps)
  obtain n p where np: "np = (n, p)" by (cases np)
  from Cons.prems(1) np obtain e where e: "report_entry http now n p = Inr e"
    and rest: "daily_report_loop http now ps (AList.update n e report) = Inr out"
    by (auto split: sum.splits)
  from Cons.prems(2) np have fresh: "n \<notin> fst ` set report" by auto
  with Cons.prems(2) np have "distinct (map fst (AList.update n e report) @ map fst ps)"
    by (auto simp: update_fresh)
  from Cons.IH [OF rest this] fresh np show ?case by (simp add: update_fresh)
qed

lemma loop_keeps:
  "daily_report_loop http now ps report = Inr out \<Longrightarrow> k \<notin> fst ` set ps \<Longrightarrow>
   map_of out k = map_of report k"
proof (induction ps arbitrary: report)
  case Nil
  then show ?case by simp
next
  case (Cons np ps)
  obtain n p where np: "np = (n, p)" by (cases np)
  from Cons.prems(1) np obtain e where
    rest: "daily_report_loop http now ps (AList.update n e report) = Inr out"
    by (auto split: sum.splits)
  from Cons.IH [OF rest] Cons.prems(2) np show ?case by (auto simp: update_conv')
qed

lemma loop_lookup:
  "daily_report_loop http now ps report = Inr out \<Longrightarrow> distinct (map fst ps) \<Longrightarrow>
   (n, p) \<in> set ps \<Longrightarrow> report_entry http now n p = Inr e \<Longrightarrow> map_of out n = Some e"
proof (induction ps arbitrary: report)
  case Nil
  then show ?case by simp
next
  case (Cons np ps)
  obtain n' p' where np: "np = (n', p')" by (cases np)
  from Cons.prems(1) np obtain e' where e': "report_entry http now n' p' = Inr e'"
    and rest: "daily_report_loop http now ps (AList.update n' e' report) = Inr out"
    by (auto split: sum.splits)
  show ?case
  proof (cases "(n, p) \<in> set ps")
    case True
    with Cons.IH [OF rest] Cons.prems show ?thesis by simp
  next
    case False
    with Cons.prems(3) np have same: "n' = n" "p' = p" by auto
    with Cons.prems(2) np have "n \<notin> fst ` set ps" by auto
    from loop_keeps [OF rest this] same e' Cons.prems(4) show ?thesis
      by (simp add: update_conv')
  qed
qed

lemma loop_total:
  "(\<forall>(n, p) \<in> set ps. \<exists>e. report_entry http now n p = Inr e) \<Longrightarrow>
   \<exists>out. daily_report_loop http now ps report = Inr out"
  by (induction ps arbitrary: report) (auto split: sum.splits)

lemma loop_members:
  "daily_report_loop http now ps report = Inr out \<Longrightarrow> (k, e) \<in> set out \<Longrightarrow>
   (k, e) \<in> set report \<or> (\<exists>p. (k, p) \<in> set ps \<and> report_entry http now k p = Inr e)"
proof (induction ps arbitrary: report)
  case Nil
  then show ?case by simp
next
  case (Cons np ps)
  obtain n p where np: "np = (n, p)" by (cases np)
  from Cons.prems(1) np obtain e' where e': "report_entry http now n p = Inr e'"
    and rest: "daily_report_loop http now ps (AList.update n e' report) = Inr out"
    by (auto split: sum.splits)
  from Cons.IH [OF rest Cons.prems(2)] e' np set_update_subset [of n e' report]
  show ?case by auto
qed

lemma distinct_self_providers: "distinct (map fst self_providers)"
  by (simp add: self_providers_def)

lemma daily_report_returns:
  assumes "\<forall>(name, path) \<in> set ps. \<forall>v.
             daily_get_provider_downloads http path = Inr (PDict [(''downloads'', v)]) \<longrightarrow>
             format_comma v = None"
  shows "\<exists>report. daily_report_loop http now ps acc = Inr report"
proof (rule loop_total, intro ballI, clarify)
  fix n p assume np: "(n, p) \<in> set ps"
  from daily_shape [of http p] show "\<exists>e. report_entry http now n p = Inr e"
  proof
    assume "daily_get_provider_downloads http p = Inr PNone"
    then show ?thesis by (simp add: report_entry_absent)
  next
    assume "\<exists>v. daily_get_provider_downloads http p = Inr (PDict [(''downloads'', v)])"
    then obtain v where v: "daily_get_provider_downloads http p = Inr (PDict [(''downloads'', v)])"
      by blast
    with assms np have "format_comma v = None" by blast
    with v show ?thesis by (simp add: report_entry_found)
  qed
qed

text \<open>
  C3, as amended. When every downloads value the fetch returns is a number, the daily
  \<open>generate_report\<close> returns a report with exactly one entry for each of the seven keys,
  in their order: for a key whose fetch returned \<open>{downloads: v}\<close>, the snapshot with the
  mapped path as \<open>provider\<close> and \<open>v\<close> as \<open>total_downloads\<close>; for a key whose fetch returned
  \<open>None\<close>, the snapshot with \<open>total_downloads\<close> 0 and the \<open>error\<close> "Failed to fetch
  data". (When a returned value is not a number the log line of the success branch
  raises and no report is returned, see the counterexample.)
\<close>

theorem daily_snapshots:
  assumes "\<forall>(name, path) \<in> set self_providers. \<forall>v.
             daily_get_provider_downloads http path = Inr (PDict [(''downloads'', v)]) \<longrightarrow>
             format_comma v = None"
  shows "\<exists>report. daily_generate_report http now = Inr report \<and>
           map fst report = map fst self_providers \<and> length self_providers = 7 \<and>
           (\<forall>(name, path) \<in> set self_providers.
              (\<forall>v. daily_get_provider_downloads http path = Inr (PDict [(''downloads'', v)]) \<longrightarrow>
                   map_of report name =
                     Some (PDict [(''provider'', PStr path), (''total_downloads'', v),
                                  (''timestamp'', PStr (now name))])) \<and>
              (daily_get_provider_downloads http path = Inr PNone \<longrightarrow>
                   map_of report name =
                     Some (PDict [(''provider'', PStr path), (''total_downloads'', PInt 0),
                                  (''timestamp'', PStr (now name)),
                                  (''error'', PStr ''Failed to fetch data'')])))"
proof -
  from daily_report_returns [OF assms] obtain report where
    run: "daily_report_loop http now self_providers [] = Inr report" by blast
  have keys: "map fst report = map fst self_providers"
    using loop_keys [OF run] distinct_self_providers by simp
  have "map_of report n = Some (PDict [(''provider'', PStr p), (''total_downloads'', v),
                                  (''timestamp'', PStr (now n))])"
    if "(n, p) \<in> set self_providers"
      and "daily_get_provider_downloads http p = Inr (PDict [(''downloads'', v)])" for n p v
  proof -
    from assms that have "format_comma v = None" by blast
    with that(2) have "report_entry http now n p =
        Inr (PDict [(''provider'', PStr p), (''total_downloads'', v), (''timestamp'', PStr (now n))])"
      by (simp add: report_entry_found)
    from loop_lookup [OF run distinct_self_providers that(1) this] show ?thesis .
  qed
  moreover have "map_of report n = Some (PDict [(''provider'', PStr p), (''total_downloads'', PInt 0),
                                  (''timestamp'', PStr (now n)),
                                  (''error'', PStr ''Failed to fetch data'')])"
    if "(n, p) \<in> set self_providers" and "daily_get_provider_downloads http p = Inr PNone" for n p
    using loop_lookup [OF run distinct_self_providers that(1) report_entry_absent [OF that(2)]] .
  moreover have "length self_providers = 7" by (simp add: self_providers_def)
  ultimately show ?thesis using run keys
    by (auto simp: daily_generate_report_def)
qed

theorem daily_snapshots_witness:
  "\<exists>report.
     daily_generate_report
       (registry_of [(detail_url ''hashicorp/aws'', detail_body [(''downloads'', PInt 12345)]),
                     (detail_url ''hashicorp/azurerm'', detail_body [])])
       (always ''2026-01-01T00:00:00'') = Inr report \<and>
     map fst report = [''aws'', ''azure'', ''gcp'', ''datadog'', ''splunk'', ''databricks'', ''elastic''] \<and>
     map_of report ''aws'' =
       Some (PDict [(''provider'', PStr ''hashicorp/aws''), (''total_downloads'', PInt 12345),
                    (''timestamp'', PStr ''2026-01-01T00:00:00'')]) \<and>
     map_of report ''gcp'' =
       Some (PDict [(''provider'', PStr ''hashicorp/google''), (''total_downloads'', PInt 0),
                    (''timestamp'', PStr ''2026-01-01T00:00:00''),
                    (''error'', PStr ''Failed to fetch data'')])"
proof -
  let ?http = "registry_of [(detail_url ''hashicorp/aws'', detail_body [(''downloads'', PInt 12345)]),
                     (detail_url ''hashicorp/azurerm'', detail_body [])]"
  have numbers: "\<forall>(name, path) \<in> set self_providers. \<forall>v.
             daily_get_provider_downloads ?http path = Inr (PDict [(''downloads'', v)]) \<longrightarrow>
             format_comma v = None"
    by (simp add: eval_daily)
  from daily_snapshots [OF numbers, of "always ''2026-01-01T00:00:00''"]
  obtain report where
    run: "daily_generate_report ?http (always ''2026-01-01T00:00:00'') = Inr report"
    and keys: "map fst report = map fst self_providers"
    and entries: "\<forall>(name, path) \<in> set self_providers.
              (\<forall>v. daily_get_provider_downloads ?http path = Inr (PDict [(''downloads'', v)]) \<longrightarrow>
                   map_of report name =
                     Some (PDict [(''provider'', PStr path), (''total_downloads'', v),
                                  (''timestamp'', PStr (always ''2026-01-01T00:00:00'' name))])) \<and>
              (daily_get_provider_downloads ?http path = Inr PNone \<longrightarrow>
                   map_of report name =
                     Some (PDict [(''provider'', PStr path), (''total_downloads'', PInt 0),
                                  (''timestamp'', PStr (always ''2026-01-01T00:00:00'' name)),
                                  (''error'', PStr ''Failed to fetch data'')]))"
    by blast
  from entries have "map_of report ''aws'' =
       Some (PDict [(''provider'', PStr ''hashicorp/aws''), (''total_downloads'', PInt 12345),
                    (''timestamp'', PStr ''2026-01-01T00:00:00'')])"
    and "map_of report ''gcp'' =
       Some (PDict [(''provider'', PStr ''hashicorp/google''), (''total_downloads'', PInt 0),
                    (''timestamp'', PStr ''2026-01-01T00:00:00''),
                    (''error'', PStr ''Failed to fetch data'')])"
    by (simp_all add: eval_daily)
  with run keys show ?thesis by (simp add: self_providers_def)
qed

theorem daily_snapshots_counterexample:
  "daily_get_provider_downloads (always (Json (detail_body [(''downloads'', PNone)]))) ''hashicorp/aws''
     = Inr (PDict [(''downloads'', PNone)]) \<and>
   daily_generate_report (always (Json (detail_body [(''downloads'', PNone)])))
     (always ''2026-01-01T00:00:00'') = Inl TypeError"
  by (simp add: daily_generate_report_def self_providers_def report_entry_def daily_result
      fetch_result_def always_def detail_body_def dict_get_def calculate_monthly_downloads_def)

text \<open>
  C10. In a report the daily \<open>generate_report\<close> returns, the entry of a tracked provider
  has the \<open>error\<close> field exactly when the fetch for that provider returned \<open>None\<close>. A
  body with \<open>data.attributes\<close> and no \<open>downloads\<close> gives the success snapshot with
  \<open>total_downloads\<close> 0 and no \<open>error\<close> field.
\<close>

theorem error_field_iff_absent:
  assumes "daily_generate_report http now = Inr report"
    and "(name, path) \<in> set self_providers"
  shows "\<exists>entry. map_of report name = Some (PDict entry) \<and>
           (map_of entry ''error'' \<noteq> None \<longleftrightarrow> daily_get_provider_downloads http path = Inr PNone) \<and>
           (\<forall>body a. http (detail_url path) = Json body \<and> data_attributes body = Some a \<and>
                     map_of a ''downloads'' = None \<longrightarrow>
              entry = [(''provider'', PStr path), (''total_downloads'', PInt 0),
                       (''timestamp'', PStr (now name))])"
proof -
  from assms(1) have run: "daily_report_loop http now self_providers [] = Inr report"
    by (simp add: daily_generate_report_def)
  from loop_keys [OF run] distinct_self_providers assms(2)
  have "name \<in> fst ` set report" by (metis append_Nil fst_conv image_eqI list.map set_map self_append_conv2 distinct.simps(1) distinct_append)
  then obtain e where e: "(name, e) \<in> set report" by force
  from loop_members [OF run e] obtain p where p: "(name, p) \<in> set self_providers"
    and entry: "report_entry http now name p = Inr e" by auto
  from p assms(2) distinct_self_providers have "p = path"
    by (meson eq_key_imp_eq_value)
  with entry have entry: "report_entry http now name path = Inr e" by simp
  from loop_lookup [OF run distinct_self_providers assms(2) entry]
  have look: "map_of report name = Some e" .
  from provider_paths_split [OF assms(2)] obtain ns nm where
    sp: "split_on CHR ''/'' path = [ns, nm]" by blast
  from daily_shape [of http path] show ?thesis
  proof
    assume absent: "daily_get_provider_downloads http path = Inr PNone"
    with entry have "e = PDict [(''provider'', PStr path), (''total_downloads'', PInt 0),
                 (''timestamp'', PStr (now name)), (''error'', PStr ''Failed to fetch data'')]"
      by (simp add: report_entry_absent)
    moreover from absent sp have "\<not> (\<exists>body a. http (detail_url path) = Json body \<and>
        data_attributes body = Some a)"
      by (auto simp: daily_result fetch_result_def split: option.splits)
    ultimately show ?thesis using look absent by auto
  next
    assume "\<exists>v. daily_get_provider_downloads http path = Inr (PDict [(''downloads'', v)])"
    then obtain v where v: "daily_get_provider_downloads http path = Inr (PDict [(''downloads'', v)])"
      by blast
    with entry have e: "e = PDict [(''provider'', PStr path), (''total_downloads'', v),
                            (''timestamp'', PStr (now name))]"
      by (auto simp: report_entry_found split: option.splits)
    have "v = PInt 0" if "http (detail_url path) = Json body" "data_attributes body = Some a"
        "map_of a ''downloads'' = None" for body a
      using that v sp by (simp add: daily_result fetch_result_def dict_get_def)
    with e look v show ?thesis by auto
  qed
qed

theorem error_field_iff_absent_witness:
  "\<exists>report entry.
     daily_generate_report (registry_of [(detail_url ''hashicorp/aws'', detail_body [])])
       (always ''2026-01-01T00:00:00'') = Inr report \<and>
     map_of report ''aws'' = Some (PDict entry) \<and>
     entry = [(''provider'', PStr ''hashicorp/aws''), (''total_downloads'', PInt 0),
              (''timestamp'', PStr ''2026-01-01T00:00:00'')] \<and>
     map_of entry ''error'' = None \<and>
     daily_get_provider_downloads (registry_of [(detail_url ''hashicorp/aws'', detail_body [])])
       ''hashicorp/aws'' \<noteq> Inr PNone"
proof -
  let ?http = "registry_of [(detail_url ''hashicorp/aws'', detail_body [])]"
  let ?now = "always ''2026-01-01T00:00:00'' :: string \<Rightarrow> string"
  have "\<forall>(name, path) \<in> set self_providers. \<forall>v.
             daily_get_provider_downloads ?http path = Inr (PDict [(''downloads'', v)]) \<longrightarrow>
             format_comma v = None"
    by (simp add: eval_daily)
  from daily_report_returns [OF this, of ?now "[]"] obtain report where
    run: "daily_generate_report ?http ?now = Inr report"
    by (auto simp: daily_generate_report_def)
  have aws: "(''aws'', ''hashicorp/aws'') \<in> set self_providers" by (simp add: self_providers_def)
  have body: "?http (detail_url ''hashicorp/aws'') = Json (detail_body [])"
    by (simp add: registry_of_def)
  have attrs: "data_attributes (detail_body []) = Some []" by (simp add: detail_body_def)
  from error_field_iff_absent [OF run aws] obtain entry where
    look: "map_of report ''aws'' = Some (PDict entry)"
    and err: "map_of entry ''error'' \<noteq> None \<longleftrightarrow> daily_get_provider_downloads ?http ''hashicorp/aws'' = Inr PNone"
    and zero: "\<forall>body a. ?http (detail_url ''hashicorp/aws'') = Json body \<and> data_attributes body = Some a \<and>
                     map_of a ''downloads'' = None \<longrightarrow>
              entry = [(''provider'', PStr ''hashicorp/aws''), (''total_downloads'', PInt 0),
                       (''timestamp'', PStr (?now ''aws''))]"
    by blast
  from zero body attrs have entry: "entry = [(''provider'', PStr ''hashicorp/aws''),
      (''total_downloads'', PInt 0), (''timestamp'', PStr ''2026-01-01T00:00:00'')]"
    by (simp add: always_def)
  then have "map_of entry ''error'' = None" by simp
  with err run look entry show ?thesis by blast
qed

text \<open>
  C7, as amended. When the response attributes have no \<open>downloads\<close> key, the dict of
  the full crawl holds the integer 0 under \<open>downloads\<close>, and the daily fetch and snapshot hold the
  integer 0 under \<open>downloads\<close> and \<open>total_downloads\<close>. No entry of a returned daily report
  holds \<open>None\<close> under \<open>total_downloads\<close>. A dict of the full crawl holds \<open>None\<close> under
  \<open>downloads\<close> only when the response gives \<open>downloads\<close> as null, and then it does (the
  counterexample).
\<close>

theorem downloads_default_zero:
  "(map_of kvs ''id'' = Some i \<and> map_of kvs ''attributes'' = Some (PDict a) \<and>
    map_of a ''downloads'' = None \<longrightarrow>
      (\<exists>fields. get_provider_downloads repr (PDict kvs) = Inr (PDict fields) \<and>
                map_of fields ''downloads'' = Some (PInt 0))) \<and>
   (get_provider_downloads repr provider = Inr (PDict fields') \<and>
    map_of fields' ''downloads'' = Some PNone \<longrightarrow>
      (\<exists>kvs' a'. provider = PDict kvs' \<and> map_of kvs' ''attributes'' = Some (PDict a') \<and>
                 map_of a' ''downloads'' = Some PNone)) \<and>
   ((name, path) \<in> set self_providers \<and> http (detail_url path) = Json body \<and>
    data_attributes body = Some attributes \<and> map_of attributes ''downloads'' = None \<longrightarrow>
      daily_get_provider_downloads http path = Inr (PDict [(''downloads'', PInt 0)]) \<and>
      report_entry http now name path =
        Inr (PDict [(''provider'', PStr path), (''total_downloads'', PInt 0),
                    (''timestamp'', PStr (now name))])) \<and>
   (daily_generate_report http now = Inr report \<and> (key, e) \<in> set report \<longrightarrow>
      (\<exists>entry v. e = PDict entry \<and> map_of entry ''total_downloads'' = Some v \<and> v \<noteq> PNone))"
proof (intro conjI impI)
  assume "map_of kvs ''id'' = Some i \<and> map_of kvs ''attributes'' = Some (PDict a) \<and>
    map_of a ''downloads'' = None"
  then show "\<exists>fields. get_provider_downloads repr (PDict kvs) = Inr (PDict fields) \<and>
                map_of fields ''downloads'' = Some (PInt 0)"
    by (simp add: item_well_formed dict_get_def)
next
  assume a: "get_provider_downloads repr provider = Inr (PDict fields') \<and>
    map_of fields' ''downloads'' = Some PNone"
  show "\<exists>kvs' a'. provider = PDict kvs' \<and> map_of kvs' ''attributes'' = Some (PDict a') \<and>
                 map_of a' ''downloads'' = Some PNone"
  proof (cases provider rule: item_cases)
    case not_dict
    with a show ?thesis by (simp add: item_not_dict)
  next
    case (malformed kvs)
    with a show ?thesis by (simp add: item_malformed)
  next
    case (well_formed kvs i a)
    with a show ?thesis by (auto simp: item_well_formed dict_get_def split: option.splits)
  qed
next
  assume a: "(name, path) \<in> set self_providers \<and> http (detail_url path) = Json body \<and>
    data_attributes body = Some attributes \<and> map_of attributes ''downloads'' = None"
  with provider_paths_split [of name path] obtain ns nm where
    "split_on CHR ''/'' path = [ns, nm]" by blast
  with a show fetched: "daily_get_provider_downloads http path = Inr (PDict [(''downloads'', PInt 0)])"
    by (simp add: daily_result fetch_result_def dict_get_def)
  then show "report_entry http now name path =
        Inr (PDict [(''provider'', PStr path), (''total_downloads'', PInt 0),
                    (''timestamp'', PStr (now name))])"
    by (simp add: report_entry_found)
next
  assume a: "daily_generate_report http now = Inr report \<and> (key, e) \<in> set report"
  then have run: "daily_report_loop http now self_providers [] = Inr report"
    by (simp add: daily_generate_report_def)
  from loop_members [OF run] a obtain p where
    entry: "report_entry http now key p = Inr e" by auto
  from daily_shape [of http p]
  show "\<exists>entry v. e = PDict entry \<and> map_of entry ''total_downloads'' = Some v \<and> v \<noteq> PNone"
  proof
    assume "daily_get_provider_downloads http p = Inr PNone"
    with entry show ?thesis by (auto simp: report_entry_absent)
  next
    assume "\<exists>v. daily_get_provider_downloads http p = Inr (PDict [(''downloads'', v)])"
    then obtain v where "daily_get_provider_downloads http p = Inr (PDict [(''downloads'', v)])"
      by blast
    with entry show ?thesis
      by (cases "format_comma v") (auto simp: report_entry_found)
  qed
qed

theorem downloads_default_zero_witness:
  "(\<exists>fields. get_provider_downloads (always ''float'')
       (PDict [(''id'', PStr ''323''),
               (''attributes'', PDict [(''namespace'', PStr ''hashicorp''), (''name'', PStr ''aws'')])])
       = Inr (PDict fields) \<and> map_of fields ''downloads'' = Some (PInt 0)) \<and>
   daily_get_provider_downloads (registry_of [(detail_url ''hashicorp/aws'', detail_body [])])
       ''hashicorp/aws'' = Inr (PDict [(''downloads'', PInt 0)]) \<and>
   report_entry (registry_of [(detail_url ''hashicorp/aws'', detail_body [])])
       (always ''2026-01-01T00:00:00'') ''aws'' ''hashicorp/aws'' =
     Inr (PDict [(''provider'', PStr ''hashicorp/aws''), (''total_downloads'', PInt 0),
                 (''timestamp'', PStr ''2026-01-01T00:00:00'')])"
proof -
  let ?kvs = "[(''id'', PStr ''323''),
               (''attributes'', PDict [(''namespace'', PStr ''hashicorp''), (''name'', PStr ''aws'')])]"
  let ?http = "registry_of [(detail_url ''hashicorp/aws'', detail_body [])]"
  let ?now = "always ''2026-01-01T00:00:00'' :: string \<Rightarrow> string"
  have full: "map_of ?kvs ''id'' = Some (PStr ''323'') \<and>
      map_of ?kvs ''attributes'' = Some (PDict [(''namespace'', PStr ''hashicorp''), (''name'', PStr ''aws'')]) \<and>
      map_of [(''namespace'', PStr ''hashicorp''), (''name'', PStr ''aws'')] ''downloads'' = None"
    by simp
  have daily: "(''aws'', ''hashicorp/aws'') \<in> set self_providers \<and>
      ?http (detail_url ''hashicorp/aws'') = Json (detail_body []) \<and>
      data_attributes (detail_body []) = Some [] \<and> map_of [] ''downloads'' = (None :: pyval option)"
    by (simp add: self_providers_def registry_of_def detail_body_def)
  from downloads_default_zero [of ?kvs "PStr ''323''"
      "[(''namespace'', PStr ''hashicorp''), (''name'', PStr ''aws'')]" "always ''float''"
      PNone "[]" "''aws''" "''hashicorp/aws''" ?http "detail_body []" "[]" ?now "[]" "''aws''" PNone]
    full daily
  show ?thesis by (simp add: always_def)
qed

theorem downloads_default_zero_counterexample:
  "get_provider_downloads (always ''float'')
     (PDict [(''id'', PStr ''323''),
             (''attributes'', PDict [(''namespace'', PStr ''hashicorp''), (''name'', PStr ''aws''),
                                     (''downloads'', PNone)])])
   = Inr (PDict [(''id'', PStr ''323''),
                 (''namespace'', PStr ''hashicorp''),
                 (''name'', PStr ''aws''),
                 (''full_name'', PStr ''hashicorp/aws''),
                 (''downloads'', PNone),
                 (''version'', PNone),
                 (''published_at'', PNone),
                 (''tier'', PNone),
                 (''source'', PNone)])"
  by (simp add: item_well_formed dict_get_def)

end
